theory Spec2Isabelle
  imports Complex_Main "HOL-Library.Multiset" "HOL-Library.Char_ord"
    "HOL-Library.List_Lexorder" "HOL-Library.Product_Lexorder" "HOL-Library.AList" "HOL-Library.Sublist"
begin

chapter \<open>Chess Engine Arena: rules engine, pairing, tournament controller, Elo\<close>

text \<open>
  A shallow embedding of \<^verbatim>\<open>board.py\<close>, \<^verbatim>\<open>elo.py\<close>, the pairing classes and the
  \<^verbatim>\<open>Tournament\<close> controller of \<^verbatim>\<open>tournament.py\<close>, and \<^verbatim>\<open>OpeningBook._san_to_uci\<close>.
  Python integers are \<^typ>\<open>int\<close>, strings are \<^typ>\<open>string\<close>, a raised exception is
  the \<open>Inl\<close> side of a sum, and mutated objects are passed and returned explicitly.
\<close>

section \<open>Python string helpers\<close>




text \<open>\<^verbatim>\<open>str(n)\<close> for an integer: decimal digits, a minus sign for a negative number.\<close>

definition digit_char :: "nat \<Rightarrow> char" where
  "digit_char d = ''0123456789'' ! d"

fun str_nat :: "nat \<Rightarrow> string" where
  "str_nat n = (if n < 10 then [digit_char n] else str_nat (n div 10) @ [digit_char (n mod 10)])"

declare str_nat.simps [simp del]

definition py_str :: "int \<Rightarrow> string" where
  "py_str i = (if i < 0 then CHR ''-'' # str_nat (nat (- i)) else str_nat (nat i))"

section \<open>Elo ratings (\<^verbatim>\<open>elo.py\<close>)\<close>




text \<open>
  The \<^verbatim>\<open>ratings\<close> dictionary, in insertion order. Ratings are Python floats; they are
  modelled as exact reals, so that \<^verbatim>\<open>10 ** x\<close> is \<^term>\<open>10 powr x\<close> and no operation
  rounds. \<^verbatim>\<open>get_r\<close> is \<^verbatim>\<open>ratings.setdefault(normalize_engine_name(name), start_elo)\<close>:
  it returns the stored value and, for an unknown key, stores the start rating.
\<close>

type_synonym ratings = "(string \<times> real) list"

definition get_r :: "(string \<Rightarrow> string) \<Rightarrow> real \<Rightarrow> ratings \<Rightarrow> string \<Rightarrow> real \<times> ratings" where
  "get_r nrm start_elo rs nm =
     (case map_of rs (nrm nm) of
        Some v \<Rightarrow> (v, rs)
      | None \<Rightarrow> (start_elo, rs @ [(nrm nm, start_elo)]))"

definition set_r :: "(string \<Rightarrow> string) \<Rightarrow> ratings \<Rightarrow> string \<Rightarrow> real \<Rightarrow> ratings" where
  "set_r nrm rs nm val = AList.update (nrm nm) val rs"

definition result_scores :: "string \<Rightarrow> (real \<times> real) option" where
  "result_scores result =
     (if result = ''1-0'' then Some (1, 0)
      else if result = ''0-1'' then Some (0, 1)
      else if result = ''1/2-1/2'' then Some (1 / 2, 1 / 2)
      else None)"

text \<open>One iteration of the loop over \<^verbatim>\<open>games\<close>; \<open>None\<close> scores are the \<^verbatim>\<open>continue\<close>.\<close>

definition elo_game ::
  "(string \<Rightarrow> string) \<Rightarrow> real \<Rightarrow> real \<Rightarrow> ratings \<Rightarrow> string \<times> string \<times> string \<Rightarrow> ratings" where
  "elo_game nrm k start_elo rs g =
     (case g of (white, black, result) \<Rightarrow>
        let w = nrm white;
            b = nrm black;
            (rw, rs1) = get_r nrm start_elo rs w;
            (rb, rs2) = get_r nrm start_elo rs1 b;
            ew = 1 / (1 + 10 powr ((rb - rw) / 400));
            eb = 1 - ew
        in (case result_scores result of
              None \<Rightarrow> rs2
            | Some (sw, sb) \<Rightarrow>
                set_r nrm (set_r nrm rs2 w (rw + k * (sw - ew))) b (rb + k * (sb - eb))))"

definition elo_unrounded ::
  "(string \<Rightarrow> string) \<Rightarrow> real \<Rightarrow> real \<Rightarrow> (string \<times> string \<times> string) list \<Rightarrow> ratings" where
  "elo_unrounded nrm k start_elo games = foldl (elo_game nrm k start_elo) [] games"

text \<open>Python's \<^verbatim>\<open>round\<close> on a float rounds a tie to the even integer.\<close>

definition py_round :: "real \<Rightarrow> int" where
  "py_round x =
     (let f = \<lfloor>x\<rfloor>; d = x - of_int f
      in if d < 1 / 2 then f else if 1 / 2 < d then f + 1
         else if even f then f else f + 1)"

definition compute_elo_ratings ::
  "(string \<Rightarrow> string) \<Rightarrow> real \<Rightarrow> real \<Rightarrow> (string \<times> string \<times> string) list \<Rightarrow> (string \<times> int) list" where
  "compute_elo_ratings nrm k start_elo games =
     map (\<lambda>(n, v). (n, py_round v)) (elo_unrounded nrm k start_elo games)"




section \<open>Tournament data (\<^verbatim>\<open>tournament.py\<close>)\<close>

text \<open>
  Players and games are objects that several lists share and that the controller
  mutates in place. A player is therefore a reference into a store of player objects;
  a game is its index in \<^verbatim>\<open>all_games\<close>, to which every game the controller creates is
  appended at once. Scores are Python floats that only ever hold sums and products of
  0, 0.5 and 1, which binary floating point represents exactly; they are rationals here.
\<close>

datatype error = IndexError | TypeError | ValueError string

type_synonym pref = nat
type_synonym gref = nat

record player =
  p_name :: string
  p_engine_path :: string
  p_score :: rat
  p_wins :: int
  p_draws :: int
  p_losses :: int
  p_buchholz :: rat
  p_sonneborn :: rat
  p_color_history :: "string list"
  p_opponents :: "string list"
  p_seed :: int

type_synonym pstore = "pref \<Rightarrow> player"

definition new_player :: "string \<Rightarrow> string \<Rightarrow> player" where
  "new_player nm path =
     \<lparr>p_name = nm, p_engine_path = path, p_score = 0, p_wins = 0, p_draws = 0, p_losses = 0,
      p_buchholz = 0, p_sonneborn = 0, p_color_history = [], p_opponents = [], p_seed = 0\<rparr>"

text \<open>\<^verbatim>\<open>TournamentPlayer.record\<close>.\<close>

definition record_player :: "player \<Rightarrow> rat \<Rightarrow> string \<Rightarrow> string \<Rightarrow> player" where
  "record_player p res opponent_name color =
     p\<lparr>p_score := p_score p + res,
       p_wins := (if res = 1 then p_wins p + 1 else p_wins p),
       p_draws := (if res \<noteq> 1 \<and> res = 1 / 2 then p_draws p + 1 else p_draws p),
       p_losses := (if res \<noteq> 1 \<and> res \<noteq> 1 / 2 then p_losses p + 1 else p_losses p),
       p_color_history := p_color_history p @ [color],
       p_opponents := p_opponents p @ [opponent_name]\<rparr>"

record game =
  g_round_num :: int
  g_white :: pref
  g_black :: pref
  g_result :: "string option"
  g_reason :: string
  g_pgn :: string
  g_move_count :: int
  g_duration :: int
  g_opening :: string
  g_status :: string
  g_move_history :: "(string \<times> string \<times> string) list"
  g_eval_history :: "int list"

definition new_game :: "int \<Rightarrow> pref \<Rightarrow> pref \<Rightarrow> game" where
  "new_game round_num w b =
     \<lparr>g_round_num = round_num, g_white = w, g_black = b, g_result = None, g_reason = [],
      g_pgn = [], g_move_count = 0, g_duration = 0, g_opening = [], g_status = ''pending'',
      g_move_history = [], g_eval_history = []\<rparr>"

definition white_score :: "game \<Rightarrow> rat option" where
  "white_score g =
     (if g_result g = Some ''1-0'' then Some 1
      else if g_result g = Some ''1/2-1/2'' then Some (1 / 2)
      else if g_result g = Some ''0-1'' then Some 0
      else None)"

definition black_score :: "game \<Rightarrow> rat option" where
  "black_score g =
     (case white_score g of
        None \<Rightarrow> None
      | Some ws \<Rightarrow> Some (if ws \<noteq> 1 / 2 then 1 - ws else 1 / 2))"

section \<open>Randomness\<close>

text \<open>
  A call that draws random numbers takes the draws as a parameter \<open>rnd\<close>: \<open>rnd k\<close> is
  the raw outcome of the \<open>k\<close>-th draw of the call. \<^verbatim>\<open>random.random() < 0.5\<close> is
  \<^term>\<open>coin\<close> of a draw, \<^verbatim>\<open>random.choice([a, b])\<close> indexes with the draw modulo 2, and
  \<^verbatim>\<open>random.shuffle\<close> is the standard library's loop
  \<^verbatim>\<open>for i in reversed(range(1, len(x))): j = randbelow(i + 1); x[i], x[j] = x[j], x[i]\<close>.
  Every run of the program is the model at some \<open>rnd\<close>.
\<close>

type_synonym draws = "nat \<Rightarrow> nat"

definition coin :: "nat \<Rightarrow> bool" where
  "coin d = even d"

fun shuffle_loop :: "draws \<Rightarrow> nat \<Rightarrow> nat \<Rightarrow> 'a list \<Rightarrow> 'a list" where
  "shuffle_loop rnd k 0 xs = xs"
| "shuffle_loop rnd k (Suc i) xs =
     (let j = rnd k mod (Suc i + 1)
      in shuffle_loop rnd (k + 1) i (xs[Suc i := xs ! j, j := xs ! Suc i]))"

definition shuffle :: "draws \<Rightarrow> 'a list \<Rightarrow> 'a list" where
  "shuffle rnd xs = shuffle_loop rnd 0 (length xs - 1) xs"

section \<open>Swiss pairing (\<^verbatim>\<open>SwissPairing\<close>)\<close>

definition swiss_key :: "player \<Rightarrow> rat \<times> int \<times> string" where
  "swiss_key p = (- p_score p, - p_wins p, p_name p)"

text \<open>
  \<^verbatim>\<open>_assign_colors\<close>; \<open>d\<close> is the draw that \<^verbatim>\<open>random.random()\<close> consumes when both
  earlier tests fail.
\<close>

definition color_balance :: "player \<Rightarrow> int" where
  "color_balance p =
     int (count_list (p_color_history p) ''b'') - int (count_list (p_color_history p) ''w'')"

definition assign_colors :: "pstore \<Rightarrow> nat \<Rightarrow> pref \<Rightarrow> pref \<Rightarrow> pref \<times> pref" where
  "assign_colors h d p1 p2 =
     (let b1 = color_balance (h p1); b2 = color_balance (h p2)
      in if b1 > b2 then (p1, p2)
         else if b2 > b1 then (p2, p1)
         else if p_color_history (h p1) \<noteq> [] \<and> last (p_color_history (h p1)) = ''b''
           then (p1, p2)
         else if p_color_history (h p2) \<noteq> [] \<and> last (p_color_history (h p2)) = ''b''
           then (p2, p1)
         else if coin d then (p1, p2) else (p2, p1))"

text \<open>
  \<^verbatim>\<open>_backtrack_pair\<close>. \<open>try_from\<close> is its \<^verbatim>\<open>for i, p2 in enumerate(rest)\<close> loop from
  index \<open>i\<close> on; it yields \<open>Inr None\<close> when the loop ends without returning. The result
  keeps Python's \<^verbatim>\<open>None\<close> as a possible value, since the source tests
  \<^verbatim>\<open>sub is not None\<close> and \<^verbatim>\<open>sub or []\<close>. \<^verbatim>\<open>rest[0]\<close> on an empty list raises.
\<close>

function backtrack_pair ::
    "pstore \<Rightarrow> pref list \<Rightarrow> string set set \<Rightarrow> int \<Rightarrow> error + pref list option"
  and try_from ::
    "pstore \<Rightarrow> pref \<Rightarrow> pref list \<Rightarrow> string set set \<Rightarrow> int \<Rightarrow> nat \<Rightarrow> error + pref list option"
  where
  "backtrack_pair h players played depth =
     (case players of
        [] \<Rightarrow> Inr (Some [])
      | p1 # rest \<Rightarrow>
          if length players = 2 then Inr (Some players)
          else
            (case try_from h p1 rest played depth 0 of
               Inl e \<Rightarrow> Inl e
             | Inr (Some res) \<Rightarrow> Inr (Some res)
             | Inr None \<Rightarrow>
                 (case rest of
                    [] \<Rightarrow> Inl IndexError
                  | p2 # remaining \<Rightarrow>
                      (case backtrack_pair h remaining played (depth + 1) of
                         Inl e \<Rightarrow> Inl e
                       | Inr sub \<Rightarrow>
                           Inr (Some (p1 # p2 #
                             (case sub of None \<Rightarrow> [] | Some s \<Rightarrow> s)))))))"
| "try_from h p1 rest played depth i =
     (if i < length rest then
        (if {p_name (h p1), p_name (h (rest ! i))} \<notin> played then
           (case backtrack_pair h (take i rest @ drop (i + 1) rest) played (depth + 1) of
              Inl e \<Rightarrow> Inl e
            | Inr (Some sub) \<Rightarrow> Inr (Some (p1 # rest ! i # sub))
            | Inr None \<Rightarrow> try_from h p1 rest played depth (i + 1))
         else try_from h p1 rest played depth (i + 1))
      else Inr None)"
  by pat_completeness auto
termination
  by (relation "measures
        [\<lambda>x. case x of Inl (h, players, played, depth) \<Rightarrow> length players
                      | Inr (h, p1, rest, played, depth, i) \<Rightarrow> length rest + 1,
         \<lambda>x. case x of Inl (h, players, played, depth) \<Rightarrow> length players + 1
                      | Inr (h, p1, rest, played, depth, i) \<Rightarrow> length rest - i]")
    (auto split: list.splits)

declare backtrack_pair.simps [simp del] try_from.simps [simp del]

text \<open>The loop \<^verbatim>\<open>for i in range(0, len(paired), 2)\<close> of \<^verbatim>\<open>pair\<close>; \<open>k\<close> counts the draws.\<close>

fun pair_up :: "pstore \<Rightarrow> draws \<Rightarrow> nat \<Rightarrow> pref list \<Rightarrow> error + (pref \<times> pref) list" where
  "pair_up h rnd k [] = Inr []"
| "pair_up h rnd k [p1] = Inl IndexError"
| "pair_up h rnd k (p1 # p2 # ps) =
     (case pair_up h rnd (k + 1) ps of
        Inl e \<Rightarrow> Inl e
      | Inr r \<Rightarrow> Inr (assign_colors h (rnd k) p1 p2 # r))"

text \<open>
  The odd branch of \<^verbatim>\<open>pair\<close>: the lowest-ranked player without a bye so far, else the
  last one. \<^verbatim>\<open>available.remove(p)\<close> removes the first occurrence.
\<close>

definition pick_bye :: "pstore \<Rightarrow> pref list \<Rightarrow> pref option \<times> pref list" where
  "pick_bye h available =
     (case find (\<lambda>p. ''BYE'' \<notin> set (p_opponents (h p))) (rev available) of
        Some p \<Rightarrow> (Some p, remove1 p available)
      | None \<Rightarrow> (Some (last available), butlast available))"

definition pair ::
  "pstore \<Rightarrow> draws \<Rightarrow> pref list \<Rightarrow> int \<Rightarrow> string set set
     \<Rightarrow> error + ((pref \<times> pref) list \<times> pref option)" where
  "pair h rnd players round_num played_pairs =
     (let sorted_players = sort_key (\<lambda>p. swiss_key (h p)) players;
          (bye_player, available) =
            (if length sorted_players mod 2 = 1 then pick_bye h sorted_players
             else (None, sorted_players))
      in case backtrack_pair h available played_pairs 0 of
           Inl e \<Rightarrow> Inl e
         | Inr None \<Rightarrow> Inl TypeError
         | Inr (Some paired) \<Rightarrow>
             (case pair_up h rnd 0 paired of
                Inl e \<Rightarrow> Inl e
              | Inr pairings \<Rightarrow> Inr (pairings, bye_player)))"

text \<open>The players of a pairing, pair by pair.\<close>

definition paired_players :: "(pref \<times> pref) list \<Rightarrow> pref list" where
  "paired_players pairings = concat (map (\<lambda>(w, b). [w, b]) pairings)"

text \<open>A roster of four fresh players, and the set of all six pairs among them.\<close>

definition roster4 :: pstore where
  "roster4 = (\<lambda>_. new_player [] [])
     (0 := new_player ''A'' [], 1 := new_player ''B'' [],
      2 := new_player ''C'' [], 3 := new_player ''D'' [])"

definition all_played4 :: "string set set" where
  "all_played4 = {{''A'', ''B''}, {''A'', ''C''}, {''A'', ''D''},
                  {''B'', ''C''}, {''B'', ''D''}, {''C'', ''D''}}"

section \<open>Round-robin schedule (\<^verbatim>\<open>RoundRobinPairing\<close>)\<close>

text \<open>
  The circle method. \<open>None\<close> is the synthetic bye slot of an odd roster.
  \<^verbatim>\<open>lst[0]\<close> raises on an empty roster.
\<close>

definition rr_pairs :: "pref option list \<Rightarrow> nat \<Rightarrow> (pref \<times> pref) list" where
  "rr_pairs circle n =
     concat (map (\<lambda>i.
       (case (circle ! i, circle ! (n - 1 - i)) of
          (Some p1, Some p2) \<Rightarrow> [if i mod 2 = 0 then (p1, p2) else (p2, p1)]
        | _ \<Rightarrow> [])) [0..<n div 2])"

fun rr_rounds ::
  "pref option \<Rightarrow> pref option list \<Rightarrow> nat \<Rightarrow> nat \<Rightarrow> (pref \<times> pref) list list" where
  "rr_rounds fixed rotating n 0 = []"
| "rr_rounds fixed rotating n (Suc k) =
     rr_pairs (fixed # rotating) n #
     rr_rounds fixed (last rotating # butlast rotating) n k"

definition generate_all_rounds :: "pref list \<Rightarrow> bool \<Rightarrow> error + (pref \<times> pref) list list" where
  "generate_all_rounds players double =
     (let lst = (if length players mod 2 = 1 then map Some players @ [None]
                 else map Some players);
          n = length lst
      in case lst of
           [] \<Rightarrow> Inl IndexError
         | fixed # rotating \<Rightarrow>
             (let rounds_single = rr_rounds fixed rotating n (n - 1)
              in if double
                 then Inr (rounds_single @ map (map (\<lambda>(w, b). (b, w))) rounds_single)
                 else Inr rounds_single))"

section \<open>Knockout bracket (\<^verbatim>\<open>KnockoutBracket\<close>)\<close>

text \<open>
  \<^verbatim>\<open>size = 1; while size < n: size *= 2\<close>. The loop starts at 1, so the size is
  positive throughout; the guard \<open>0 < sz\<close> only serves the termination proof.
\<close>

function bracket_size :: "nat \<Rightarrow> nat \<Rightarrow> nat" where
  "bracket_size n sz = (if sz < n \<and> 0 < sz then bracket_size n (sz * 2) else sz)"
  by pat_completeness auto
termination
  by (relation "measure (\<lambda>(n, sz). n - sz)") auto

declare bracket_size.simps [simp del]

definition seed_bracket :: "pref list \<Rightarrow> (pref option \<times> pref option) list" where
  "seed_bracket players =
     (let n = length players;
          sz = bracket_size n 1;
          seeded = map Some players @ replicate (sz - n) None
      in map (\<lambda>i. (seeded ! i, seeded ! (sz - 1 - i))) [0..<sz div 2])"

text \<open>
  \<^verbatim>\<open>next_round\<close>: shuffle, then pair neighbours with a random colour each. The shuffle
  of a list of length \<open>n\<close> consumes the draws below \<open>n - 1\<close>; the colour of the pair at
  positions \<open>i\<close>, \<open>i + 1\<close> is draw \<open>k\<close>. A last player without a neighbour is in no
  pair.
\<close>

fun ko_pairs :: "draws \<Rightarrow> nat \<Rightarrow> pref list \<Rightarrow> (pref \<times> pref) list" where
  "ko_pairs rnd k (a # b # rest) =
     (if coin (rnd k) then (a, b) else (b, a)) # ko_pairs rnd (k + 1) rest"
| "ko_pairs rnd k rest = []"

definition next_round :: "draws \<Rightarrow> pref list \<Rightarrow> (pref \<times> pref) list" where
  "next_round rnd winners =
     ko_pairs rnd (length winners - 1) (shuffle rnd winners)"

section \<open>Tournament controller (\<^verbatim>\<open>Tournament\<close>)\<close>

text \<open>
  The controller's state. \<open>t_pstore\<close> holds the player objects and \<open>t_all_games\<close>
  the game objects; every other list holds references. The configuration fields that
  no controller method reads (move time, delay, analyzer, opening book, creation
  time, id) are left out.
\<close>

record tournament =
  t_name :: string
  t_format :: string
  t_players :: "(string \<times> pref) list"
  t_player_list :: "pref list"
  t_rounds :: int
  t_double_rr :: bool
  t_current_round :: nat
  t_all_games :: "game list"
  t_round_games :: "gref list"
  t_played_pairs :: "string set set"
  t_bye_history :: "string set"
  t_started :: bool
  t_finished :: bool
  t_winner :: "pref option"
  t_status_msg :: string
  t_ko_pending_winners :: "pref list"
  t_ko_eliminated :: "pref list"
  t_ko_round_games :: "(nat \<times> gref list) list"
  t_ko_active_players :: "pref list"
  t_rr_schedule :: "(pref \<times> pref) list list option"
  t_pstore :: pstore

definition FORMAT_SWISS :: string where "FORMAT_SWISS = ''Swiss''"
definition FORMAT_ROUNDROBIN :: string where "FORMAT_ROUNDROBIN = ''Round Robin''"
definition FORMAT_KNOCKOUT :: string where "FORMAT_KNOCKOUT = ''Knockout''"

text \<open>\<^verbatim>\<open>Tournament.__init__\<close>; \<open>h\<close> is the store that holds the players.\<close>

definition tournament_init ::
  "pstore \<Rightarrow> string \<Rightarrow> string \<Rightarrow> pref list \<Rightarrow> int \<Rightarrow> bool \<Rightarrow> error + tournament" where
  "tournament_init h nm fmt players rounds double_rr =
     (let t = \<lparr>t_name = nm, t_format = fmt,
                t_players = foldl (\<lambda>d p. AList.update (p_name (h p)) p d) [] players,
                t_player_list = players, t_rounds = rounds, t_double_rr = double_rr,
                t_current_round = 0, t_all_games = [], t_round_games = [],
                t_played_pairs = {}, t_bye_history = {}, t_started = False,
                t_finished = False, t_winner = None, t_status_msg = ''Ready'',
                t_ko_pending_winners = [], t_ko_eliminated = [], t_ko_round_games = [],
                t_ko_active_players = players, t_rr_schedule = None, t_pstore = h\<rparr>
      in if fmt = FORMAT_ROUNDROBIN then
           (case generate_all_rounds players double_rr of
              Inl e \<Rightarrow> Inl e
            | Inr sch \<Rightarrow> Inr (t\<lparr>t_rr_schedule := Some sch, t_rounds := int (length sch)\<rparr>))
         else Inr t)"

text \<open>\<^verbatim>\<open>get_standings\<close>. \<^verbatim>\<open>list.sort\<close> is stable, as \<^const>\<open>sort_key\<close> is.\<close>

fun index_of :: "'a \<Rightarrow> 'a list \<Rightarrow> nat" where
  "index_of x [] = 0"
| "index_of x (y # ys) = (if x = y then 0 else 1 + index_of x ys)"

definition ko_key :: "pstore \<Rightarrow> string list \<Rightarrow> pref \<Rightarrow> int \<times> rat \<times> string" where
  "ko_key h eliminated_names p =
     (if p_name (h p) \<notin> set eliminated_names then (0, - p_score (h p), p_name (h p))
      else (int (length eliminated_names) - int (index_of (p_name (h p)) eliminated_names),
            - p_score (h p), p_name (h p)))"

definition get_standings :: "tournament \<Rightarrow> pref list" where
  "get_standings t =
     (let h = t_pstore t; players = t_player_list t
      in if t_format t = FORMAT_SWISS then
           sort_key (\<lambda>p. (- p_score (h p), - p_buchholz (h p), - p_sonneborn (h p),
                          p_name (h p))) players
         else if t_format t = FORMAT_ROUNDROBIN then
           sort_key (\<lambda>p. (- p_score (h p), - p_wins (h p), p_name (h p))) players
         else if t_format t = FORMAT_KNOCKOUT then
           sort_key (ko_key h (map (\<lambda>p. p_name (h p)) (t_ko_eliminated t))) players
         else players)"

text \<open>\<^verbatim>\<open>_finish\<close>.\<close>

definition finish :: "tournament \<Rightarrow> tournament" where
  "finish t =
     (let t1 = t\<lparr>t_finished := True\<rparr>;
          standings = get_standings t1;
          t2 = (if standings \<noteq> [] \<and> t_winner t1 = None
                then t1\<lparr>t_winner := Some (hd standings)\<rparr> else t1)
      in t2\<lparr>t_status_msg := ''Tournament complete! Winner: '' @
              (case t_winner t2 of Some w \<Rightarrow> p_name (t_pstore t2 w) | None \<Rightarrow> ''?'')\<rparr>)"

text \<open>
  The loop \<^verbatim>\<open>for w, b in pairs\<close> of \<^verbatim>\<open>_generate_round\<close>: a new game for the current
  round, appended to \<^verbatim>\<open>round_games\<close> and \<^verbatim>\<open>all_games\<close>.
\<close>

definition add_game :: "tournament \<Rightarrow> pref \<times> pref \<Rightarrow> tournament" where
  "add_game t wb =
     t\<lparr>t_round_games := t_round_games t @ [length (t_all_games t)],
       t_all_games := t_all_games t @ [new_game (int (t_current_round t)) (fst wb) (snd wb)]\<rparr>"

definition add_games :: "tournament \<Rightarrow> (pref \<times> pref) list \<Rightarrow> tournament" where
  "add_games t prs = foldl add_game t prs"

text \<open>One slot of the first knockout round: a bye advances at once, a full slot is a game.\<close>

definition seed_slot :: "tournament \<Rightarrow> pref option \<times> pref option \<Rightarrow> tournament" where
  "seed_slot t wb =
     (case wb of
        (Some w, Some b) \<Rightarrow> add_game t (w, b)
      | (Some w, None) \<Rightarrow> t\<lparr>t_ko_pending_winners := t_ko_pending_winners t @ [w]\<rparr>
      | (None, Some b) \<Rightarrow> t\<lparr>t_ko_pending_winners := t_ko_pending_winners t @ [b]\<rparr>
      | (None, None) \<Rightarrow> t)"

definition store_ko_round :: "tournament \<Rightarrow> tournament" where
  "store_ko_round t =
     t\<lparr>t_ko_round_games := AList.update (t_current_round t) (t_round_games t) (t_ko_round_games t)\<rparr>"

text \<open>
  \<^verbatim>\<open>_generate_round\<close>. The second component is the exception that leaves the method,
  if any; the state is then the one at the raise.
\<close>

definition generate_round :: "draws \<Rightarrow> tournament \<Rightarrow> tournament \<times> error option" where
  "generate_round rnd t =
     (let t1 = t\<lparr>t_current_round := t_current_round t + 1, t_round_games := []\<rparr>
      in if t_format t1 = FORMAT_SWISS then
           (case pair (t_pstore t1) rnd (t_player_list t1) (int (t_current_round t1))
                   (t_played_pairs t1) of
              Inl e \<Rightarrow> (t1, Some e)
            | Inr (pairs, bye) \<Rightarrow>
                (let t2 = add_games t1 pairs
                 in case bye of
                      None \<Rightarrow> (t2, None)
                    | Some b \<Rightarrow>
                        (t2\<lparr>t_pstore := (t_pstore t2)
                               (b := record_player (t_pstore t2 b) 1 ''BYE'' ''w''),
                            t_bye_history := insert (p_name (t_pstore t2 b)) (t_bye_history t2)\<rparr>,
                         None)))
         else if t_format t1 = FORMAT_ROUNDROBIN then
           (case t_rr_schedule t1 of
              None \<Rightarrow> (t1, Some TypeError)
            | Some sch \<Rightarrow>
                (if t_current_round t < length sch
                 then (add_games t1 (sch ! t_current_round t), None)
                 else (t1, None)))
         else if t_format t1 = FORMAT_KNOCKOUT then
           (if t_current_round t1 = 1 then
              (store_ko_round (foldl seed_slot t1 (seed_bracket (t_ko_active_players t1))), None)
            else
              (let prev_winners = t_ko_pending_winners t1;
                   t2 = t1\<lparr>t_ko_pending_winners := []\<rparr>
               in if length prev_winners \<le> 1 then
                    (finish (t2\<lparr>t_winner := (case prev_winners of [] \<Rightarrow> None
                                               | w # _ \<Rightarrow> Some w)\<rparr>), None)
                  else (store_ko_round (add_games t2 (next_round rnd prev_winners)), None)))
         else (t1, None))"

text \<open>\<^verbatim>\<open>start\<close>.\<close>

definition start :: "draws \<Rightarrow> tournament \<Rightarrow> tournament \<times> error option" where
  "start rnd t =
     (case generate_round rnd (t\<lparr>t_started := True\<rparr>) of
        (t1, Some e) \<Rightarrow> (t1, Some e)
      | (t1, None) \<Rightarrow>
          (t1\<lparr>t_status_msg := ''Round '' @ py_str (int (t_current_round t1)) @ '' started''\<rparr>,
           None))"

text \<open>
  \<^verbatim>\<open>record_game_result\<close>, for the game at index \<open>g\<close> of \<^verbatim>\<open>all_games\<close>. The two
  \<^verbatim>\<open>record\<close> calls update the store one after the other, so that a game of a player
  against itself records twice on the same object.
\<close>

definition record_game_result ::
  "draws \<Rightarrow> tournament \<Rightarrow> gref \<Rightarrow> string \<Rightarrow> string \<Rightarrow> (string \<times> string \<times> string) list \<Rightarrow> string
     \<Rightarrow> int \<Rightarrow> string option \<Rightarrow> int list option \<Rightarrow> tournament" where
  "record_game_result rnd t g result reason move_history pgn duration opening eval_history =
     (let gm = (t_all_games t ! g)
            \<lparr>g_result := Some result, g_reason := reason, g_pgn := pgn,
             g_move_count := int (length move_history), g_duration := duration,
             g_opening := (case opening of None \<Rightarrow> [] | Some s \<Rightarrow> s),
             g_move_history := move_history,
             g_eval_history := (case eval_history of None \<Rightarrow> [] | Some es \<Rightarrow> es),
             g_status := ''done''\<rparr>;
          w = g_white gm; b = g_black gm;
          h = t_pstore t;
          t1 = t\<lparr>t_all_games := (t_all_games t)[g := gm],
                 t_played_pairs := insert {p_name (h w), p_name (h b)} (t_played_pairs t)\<rparr>
      in case (white_score gm, black_score gm) of
           (Some ws, Some bs) \<Rightarrow>
             (let h1 = h(w := record_player (h w) ws (p_name (h b)) ''w'');
                  h2 = h1(b := record_player (h1 b) bs (p_name (h1 w)) ''b'');
                  t2 = t1\<lparr>t_pstore := h2\<rparr>
              in if t_format t2 = FORMAT_KNOCKOUT then
                   (if ws > bs then
                      t2\<lparr>t_ko_pending_winners := t_ko_pending_winners t2 @ [w],
                         t_ko_eliminated := t_ko_eliminated t2 @ [b]\<rparr>
                    else if bs > ws then
                      t2\<lparr>t_ko_pending_winners := t_ko_pending_winners t2 @ [b],
                         t_ko_eliminated := t_ko_eliminated t2 @ [w]\<rparr>
                    else
                      (let adv = [w, b] ! (rnd 0 mod 2);
                           elim = (if adv = w then b else w)
                       in t2\<lparr>t_ko_pending_winners := t_ko_pending_winners t2 @ [adv],
                             t_ko_eliminated := t_ko_eliminated t2 @ [elim]\<rparr>))
                 else t2)
         | _ \<Rightarrow> t1)"

definition round_complete :: "tournament \<Rightarrow> bool" where
  "round_complete t = list_all (\<lambda>g. g_status (t_all_games t ! g) = ''done'') (t_round_games t)"

definition get_pending_games :: "tournament \<Rightarrow> gref list" where
  "get_pending_games t = filter (\<lambda>g. g_status (t_all_games t ! g) = ''pending'') (t_round_games t)"

definition next_game :: "tournament \<Rightarrow> gref option" where
  "next_game t = (case get_pending_games t of [] \<Rightarrow> None | g # _ \<Rightarrow> Some g)"

text \<open>\<^verbatim>\<open>_update_buchholz\<close>: the Swiss tie-breaks, player by player.\<close>

definition score_map_get :: "tournament \<Rightarrow> string \<Rightarrow> rat" where
  "score_map_get t nm =
     (case map_of (rev (map (\<lambda>p. (p_name (t_pstore t p), p_score (t_pstore t p)))
                        (t_player_list t))) nm of
        None \<Rightarrow> 0 | Some s \<Rightarrow> s)"

definition sonneborn_of :: "tournament \<Rightarrow> (string \<Rightarrow> rat) \<Rightarrow> pref \<Rightarrow> rat" where
  "sonneborn_of t sm p =
     foldl (\<lambda>acc g.
        if g_status g \<noteq> ''done'' then acc
        else if g_white g = p \<and> white_score g \<noteq> None
          then acc + the (white_score g) * sm (p_name (t_pstore t (g_black g)))
        else if g_black g = p \<and> black_score g \<noteq> None
          then acc + the (black_score g) * sm (p_name (t_pstore t (g_white g)))
        else acc) 0 (t_all_games t)"

definition update_buchholz :: "tournament \<Rightarrow> tournament" where
  "update_buchholz t =
     (if t_format t \<noteq> FORMAT_SWISS then t
      else
        (let sm = score_map_get t
         in foldl (\<lambda>t' p.
              t'\<lparr>t_pstore := (t_pstore t')
                 (p := (t_pstore t' p)
                    \<lparr>p_buchholz := sum_list (map sm (filter (\<lambda>opp. opp \<noteq> ''BYE'')
                                                  (p_opponents (t_pstore t' p)))),
                     p_sonneborn := sonneborn_of t' sm p\<rparr>)\<rparr>) t (t_player_list t)))"

text \<open>\<^verbatim>\<open>advance_round\<close>; the Boolean is its return value.\<close>

definition advance_round :: "draws \<Rightarrow> tournament \<Rightarrow> (tournament \<times> error option) \<times> bool" where
  "advance_round rnd t =
     (let t1 = update_buchholz t
      in if t_format t1 = FORMAT_SWISS \<or> t_format t1 = FORMAT_ROUNDROBIN then
           (if int (t_current_round t1) \<ge> t_rounds t1 then ((finish t1, None), True)
            else (generate_round rnd t1, False))
         else if t_format t1 = FORMAT_KNOCKOUT then
           (let active = t_ko_pending_winners t1
            in if length active \<le> 1 then
                 ((finish (t1\<lparr>t_winner := (case active of [] \<Rightarrow> None | w # _ \<Rightarrow> Some w)\<rparr>),
                   None), True)
               else (generate_round rnd t1, False))
         else ((t1, None), True))"

section \<open>Sequences of controller operations\<close>

text \<open>
  The three operations of the controller, each with the draws it may consume.
  \<open>Record\<close> carries the arguments of \<^verbatim>\<open>record_game_result\<close>; it applies to a game of
  \<^verbatim>\<open>all_games\<close> only. The state after an operation is the controller's state when the
  call returns or raises.
\<close>

datatype op =
    Start draws
  | Record draws gref string string "(string \<times> string \<times> string) list" string int
      "string option" "int list option"
  | Advance draws

fun controller_step :: "tournament \<Rightarrow> op \<Rightarrow> tournament option" where
  "controller_step t (Start rnd) = Some (fst (start rnd t))"
| "controller_step t (Record rnd g result reason mh pgn dur opening evals) =
     (if g < length (t_all_games t)
      then Some (record_game_result rnd t g result reason mh pgn dur opening evals)
      else None)"
| "controller_step t (Advance rnd) = Some (fst (fst (advance_round rnd t)))"

fun run_ops :: "tournament \<Rightarrow> op list \<Rightarrow> tournament option" where
  "run_ops t [] = Some t"
| "run_ops t (x # xs) =
     (case controller_step t x of None \<Rightarrow> None | Some t' \<Rightarrow> run_ops t' xs)"

fun records_game :: "gref \<Rightarrow> op \<Rightarrow> bool" where
  "records_game g (Record rnd g' result reason mh pgn dur opening evals) = (g' = g)"
| "records_game g _ = False"

section \<open>Predicates and sample tournaments for the controller claims\<close>

text \<open>A result string that decides a game: the three for which \<^const>\<open>white_score\<close> is defined.\<close>

definition decisive :: "string \<Rightarrow> bool" where
  "decisive r = (r = ''1-0'' \<or> r = ''0-1'' \<or> r = ''1/2-1/2'')"

text \<open>
  An operation is quiet when it keeps the finished flag once set, leaves the played pairs
  as they are and only appends to \<^verbatim>\<open>all_games\<close>.
\<close>

definition quiet :: "tournament \<Rightarrow> tournament \<Rightarrow> bool" where
  "quiet t t' =
     ((t_finished t \<longrightarrow> t_finished t') \<and> t_played_pairs t' = t_played_pairs t \<and>
      prefix (t_all_games t) (t_all_games t'))"

text \<open>
  In a knockout tournament, the pending winners and the players of every game are
  among the players \<open>P\<close>.
\<close>

definition ko_inv :: "pref set \<Rightarrow> tournament \<Rightarrow> bool" where
  "ko_inv P t =
     (t_format t = FORMAT_KNOCKOUT \<and> set (t_ko_pending_winners t) \<subseteq> P \<and>
      (\<forall>g\<in>set (t_all_games t). g_white g \<in> P \<and> g_black g \<in> P))"

text \<open>
  Sample tournaments: a knockout cup of five fresh players, and a one-round Swiss duel
  of A and B of \<^const>\<open>roster4\<close>; \<open>play\<close> runs operations on a tournament as constructed.
\<close>

definition play :: "error + tournament \<Rightarrow> op list \<Rightarrow> tournament option" where
  "play made ops = (case made of Inl e \<Rightarrow> None | Inr t \<Rightarrow> run_ops t ops)"

definition roster5 :: pstore where
  "roster5 = (\<lambda>_. new_player [] [])
     (0 := new_player ''A'' [], 1 := new_player ''B'' [],
      2 := new_player ''C'' [], 3 := new_player ''D'' [], 4 := new_player ''E'' [])"

definition cup5 :: "error + tournament" where
  "cup5 = tournament_init roster5 ''Cup'' FORMAT_KNOCKOUT [0, 1, 2, 3, 4] 3 False"

definition duel :: "error + tournament" where
  "duel = tournament_init roster4 ''Duel'' FORMAT_SWISS [0, 1] 1 False"

definition no_draws :: draws where
  "no_draws = (\<lambda>_. 0)"

definition duel_ops :: "op list" where
  "duel_ops = [Start no_draws, Record no_draws 0 ''1-0'' ''Checkmate'' [] [] 12 None None]"

definition duel_done :: tournament where
  "duel_done = the (play duel (duel_ops @ [Advance no_draws]))"

definition after_end :: "op list" where
  "after_end = [Advance no_draws, Start no_draws]"

section \<open>Elo: proofs\<close>









section \<open>Elo: the claim\<close>




section \<open>Swiss pairing: proofs\<close>

lemma mset_without_nth:
  "i < length xs \<Longrightarrow> add_mset (xs ! i) (mset (take i xs @ drop (Suc i) xs)) = mset xs"
proof -
  assume "i < length xs"
  then have "mset xs = mset (take i xs @ xs ! i # drop (Suc i) xs)"
    using id_take_nth_drop by metis
  then show ?thesis by simp
qed

lemma backtrack_complete:
  "(even (length players) \<longrightarrow>
      (\<exists>xs. backtrack_pair h players played depth = Inr (Some xs) \<and> mset xs = mset players))"
  "(odd (length rest) \<longrightarrow>
      try_from h p1 rest played depth i = Inr None \<or>
      (\<exists>xs. try_from h p1 rest played depth i = Inr (Some xs) \<and>
            mset xs = add_mset p1 (mset rest)))"
proof (induction h players played depth and h p1 rest played depth i
    rule: backtrack_pair_try_from.induct)
  case (1 h players played depth)
  show ?case
  proof (intro impI)
    assume ev: "even (length players)"
    show "\<exists>xs. backtrack_pair h players played depth = Inr (Some xs) \<and> mset xs = mset players"
    proof (cases players)
      case Nil
      then show ?thesis by (simp add: backtrack_pair.simps)
    next
      case (Cons p1 rest)
      show ?thesis
      proof (cases "length players = 2")
        case True
        then show ?thesis
          by (subst backtrack_pair.simps) (use Cons in simp)
      next
        case False
        have od: "odd (length rest)" using ev Cons by simp
        from od obtain p2 remaining where rest: "rest = p2 # remaining"
          by (cases rest) auto
        have evr: "even (length remaining)" using od rest by simp
        from "1.IH"(1) [OF Cons False] od
        consider "try_from h p1 rest played depth 0 = Inr None"
          | xs where "try_from h p1 rest played depth 0 = Inr (Some xs)"
            "mset xs = add_mset p1 (mset rest)"
          by blast
        then show ?thesis
        proof cases
          case 1
          from "1.IH"(2) [OF Cons False 1 _ rest] evr
          obtain ys where ys: "backtrack_pair h remaining played (depth + 1) = Inr (Some ys)"
            "mset ys = mset remaining" by auto
          show ?thesis
            by (subst backtrack_pair.simps) (use Cons False 1 rest ys in simp)
        next
          case 2
          then show ?thesis
            by (subst backtrack_pair.simps) (use Cons False in simp)
        qed
      qed
    qed
  qed
next
  case (2 h p1 rest played depth i)
  show ?case
  proof (intro impI)
    assume od: "odd (length rest)"
    show "try_from h p1 rest played depth i = Inr None \<or>
      (\<exists>xs. try_from h p1 rest played depth i = Inr (Some xs) \<and>
            mset xs = add_mset p1 (mset rest))"
    proof (cases "i < length rest")
      case False
      then show ?thesis by (simp add: try_from.simps)
    next
      case True
      show ?thesis
      proof (cases "{p_name (h p1), p_name (h (rest ! i))} \<notin> played")
        case False
        have "try_from h p1 rest played depth i = try_from h p1 rest played depth (i + 1)"
          by (subst try_from.simps) (use True False in simp)
        then show ?thesis
          using "2.IH"(3) [OF True False] od by simp
      next
        case fresh: True
        have "even (length (take i rest @ drop (i + 1) rest))"
          using True od by (simp add: min_def)
        with "2.IH"(1) [OF True fresh]
        obtain sub where sub:
          "backtrack_pair h (take i rest @ drop (i + 1) rest) played (depth + 1) = Inr (Some sub)"
          "mset sub = mset (take i rest @ drop (i + 1) rest)" by blast
        have "mset (p1 # rest ! i # sub) = add_mset p1 (mset rest)"
          using sub(2) mset_without_nth [OF True] by simp
        then show ?thesis
          by (subst try_from.simps) (use True fresh sub(1) in simp)
      qed
    qed
  qed
qed

lemma pair_up_complete:
  "even (length ps) \<Longrightarrow>
   \<exists>prs. pair_up h rnd k ps = Inr prs \<and> mset (paired_players prs) = mset ps"
proof (induction h rnd k ps rule: pair_up.induct)
  case (1 h rnd k)
  then show ?case by (simp add: paired_players_def)
next
  case (2 h rnd k p1)
  then show ?case by simp
next
  case (3 h rnd k p1 p2 ps)
  then obtain prs where "pair_up h rnd (k + 1) ps = Inr prs"
    "mset (paired_players prs) = mset ps" by auto
  then show ?case
    by (auto simp: paired_players_def assign_colors_def Let_def)
qed

lemma pair_complete:
  assumes "even (length players)"
  shows "\<exists>prs. pair h rnd players round_num played = Inr (prs, None) \<and>
           mset (paired_players prs) = mset players"
proof -
  let ?av = "sort_key (\<lambda>p. swiss_key (h p)) players"
  have ev: "even (length ?av)" using assms by simp
  from backtrack_complete(1) [of ?av h played 0] ev
  obtain xs where xs: "backtrack_pair h ?av played 0 = Inr (Some xs)" "mset xs = mset ?av"
    by blast
  have "even (length xs)" using xs(2) ev by (metis size_mset)
  from pair_up_complete [OF this, of h rnd 0]
  obtain prs where prs: "pair_up h rnd 0 xs = Inr prs" "mset (paired_players prs) = mset xs"
    by blast
  have "pair h rnd players round_num played = Inr (prs, None)"
    using ev xs(1) prs(1) by (simp add: pair_def Let_def)
  moreover have "mset (paired_players prs) = mset players"
    using prs(2) xs(2) by simp
  ultimately show ?thesis by blast
qed

section \<open>Swiss pairing: the claim\<close>

text \<open>
  C7: for every even-sized roster and every set of already-played pairs, \<^verbatim>\<open>pair\<close>
  raises no exception, assigns no bye and returns a complete pairing: the players of
  the returned pairs, counted with multiplicity, are exactly the roster. So every
  player is in a pair, and in a roster without repeated players nobody is in two pairs
  or twice in one. No assumption on \<open>played\<close>: when every pair has been played the
  pairing repeats pairs.
\<close>

theorem C7_swiss_pairing_complete:
  assumes "even (length players)"
  shows "\<exists>prs. pair h rnd players round_num played = Inr (prs, None) \<and>
           mset (paired_players prs) = mset players \<and>
           set (paired_players prs) = set players \<and>
           (distinct players \<longrightarrow> distinct (paired_players prs)) \<and>
           length prs * 2 = length players"
proof -
  from pair_complete [OF assms, of h rnd round_num played]
  obtain prs where prs: "pair h rnd players round_num played = Inr (prs, None)"
    "mset (paired_players prs) = mset players" by blast
  have "set (paired_players prs) = set players"
    using prs(2) by (rule mset_eq_setD)
  moreover have "distinct players \<longrightarrow> distinct (paired_players prs)"
    using prs(2) by (metis mset_eq_imp_distinct_iff)
  moreover have "length (paired_players prs) = length prs * 2"
    by (induction prs) (auto simp: paired_players_def)
  then have "length prs * 2 = length players"
    using prs(2) by (metis size_mset)
  ultimately show ?thesis using prs by blast
qed

text \<open>
  The extreme case: four players, every pair of them already played. The pairing
  repeats A-B and C-D.
\<close>

theorem C7_swiss_pairing_complete_witness:
  "even (length [3, 1, 0, 2 :: pref]) \<and>
   pair roster4 (\<lambda>_. 0) [3, 1, 0, 2] 2 all_played4 = Inr ([(0, 1), (2, 3)], None) \<and>
   (\<exists>prs. pair roster4 (\<lambda>_. 0) [3, 1, 0, 2] 2 all_played4 = Inr (prs, None) \<and>
          mset (paired_players prs) = mset [3, 1, 0, 2])"
proof -
  have ev: "even (length [3, 1, 0, 2 :: pref])" by simp
  have run: "pair roster4 (\<lambda>_. 0) [3, 1, 0, 2] 2 all_played4 = Inr ([(0, 1), (2, 3)], None)"
    by (simp add: pair_def roster4_def all_played4_def swiss_key_def new_player_def
        backtrack_pair.simps try_from.simps assign_colors_def color_balance_def coin_def
        insort_key.simps less_eq_prod_def less_prod_def doubleton_eq_iff)
  from C7_swiss_pairing_complete [OF ev, of roster4 "\<lambda>_. 0" 2 all_played4]
  have "\<exists>prs. pair roster4 (\<lambda>_. 0) [3, 1, 0, 2] 2 all_played4 = Inr (prs, None) \<and>
          mset (paired_players prs) = mset [3, 1, 0, 2]" by blast
  with ev run show ?thesis by blast
qed

section \<open>Controller: finished flag, played pairs and games under every operation\<close>

lemma quiet_refl: "quiet t t"
  by (simp add: quiet_def)

lemma quiet_trans: "quiet a b \<Longrightarrow> quiet b c \<Longrightarrow> quiet a c"
  by (auto simp: quiet_def)

lemma quiet_add_game: "quiet t (add_game t wb)"
  by (simp add: quiet_def add_game_def)

lemma quiet_foldl:
  "(\<And>s x. quiet s (f s x)) \<Longrightarrow> quiet t (foldl f t xs)"
proof (induction xs arbitrary: t)
  case Nil
  then show ?case by (simp add: quiet_refl)
next
  case (Cons x xs)
  have "quiet t (f t x)" by (rule Cons.prems)
  moreover have "quiet (f t x) (foldl f (f t x) xs)"
    by (rule Cons.IH) (rule Cons.prems)
  ultimately show ?case using quiet_trans by fastforce
qed

lemma quiet_add_games: "quiet t (add_games t prs)"
  unfolding add_games_def by (rule quiet_foldl) (rule quiet_add_game)

lemma quiet_seed_slot: "quiet t (seed_slot t wb)"
  by (auto simp: seed_slot_def quiet_add_game quiet_def split: prod.splits option.splits)
     (simp_all add: add_game_def)

lemma quiet_finish: "quiet t (finish t)" and finished_finish: "t_finished (finish t)"
  by (simp_all add: quiet_def finish_def Let_def)

lemma quiet_update [simp]:
  "quiet t (t'\<lparr>t_current_round := a\<rparr>) = quiet t t'"
  "quiet t (t'\<lparr>t_round_games := b\<rparr>) = quiet t t'"
  "quiet t (t'\<lparr>t_pstore := c\<rparr>) = quiet t t'"
  "quiet t (t'\<lparr>t_bye_history := d\<rparr>) = quiet t t'"
  "quiet t (t'\<lparr>t_ko_pending_winners := e\<rparr>) = quiet t t'"
  "quiet t (t'\<lparr>t_winner := f\<rparr>) = quiet t t'"
  "quiet t (t'\<lparr>t_started := g\<rparr>) = quiet t t'"
  "quiet t (t'\<lparr>t_status_msg := i\<rparr>) = quiet t t'"
  "quiet t (t'\<lparr>t_ko_round_games := j\<rparr>) = quiet t t'"
  "quiet (t\<lparr>t_current_round := a\<rparr>) t' = quiet t t'"
  "quiet (t\<lparr>t_round_games := b\<rparr>) t' = quiet t t'"
  "quiet (t\<lparr>t_pstore := c\<rparr>) t' = quiet t t'"
  "quiet (t\<lparr>t_ko_pending_winners := e\<rparr>) t' = quiet t t'"
  "quiet (t\<lparr>t_winner := f\<rparr>) t' = quiet t t'"
  "quiet (t\<lparr>t_started := g\<rparr>) t' = quiet t t'"
  by (simp_all add: quiet_def)

lemma quiet_store_ko_round [simp]: "quiet t (store_ko_round t') = quiet t t'"
  by (simp add: store_ko_round_def)

lemma quiet_add_games_after: "quiet t s \<Longrightarrow> quiet t (add_games s prs)"
  using quiet_add_games quiet_trans by blast

lemma quiet_seed_after: "quiet t s \<Longrightarrow> quiet t (foldl seed_slot s xs)"
  using quiet_foldl [of seed_slot s xs, OF quiet_seed_slot] quiet_trans by blast

lemma quiet_finish_after: "quiet t s \<Longrightarrow> quiet t (finish s)"
  using quiet_finish quiet_trans by blast

lemma quiet_generate_round: "quiet t (fst (generate_round rnd t))"
  unfolding generate_round_def Let_def
  by (simp add: quiet_refl quiet_add_games_after quiet_seed_after quiet_finish_after
      split: sum.splits prod.splits option.splits)

lemma quiet_generate_after: "quiet t s \<Longrightarrow> quiet t (fst (generate_round rnd s))"
  using quiet_generate_round quiet_trans by blast

lemma quiet_start: "quiet t (fst (start rnd t))"
proof -
  have "quiet t (fst (generate_round rnd (t\<lparr>t_started := True\<rparr>)))"
    by (rule quiet_generate_after) (simp add: quiet_refl)
  then show ?thesis
    by (auto simp: start_def split: prod.splits option.splits)
qed

lemma quiet_update_buchholz: "quiet t (update_buchholz t)"
  unfolding update_buchholz_def Let_def
  by (auto simp: quiet_refl intro!: quiet_foldl)

lemma quiet_advance: "quiet t (fst (fst (advance_round rnd t)))"
  unfolding advance_round_def Let_def
  by (simp add: quiet_update_buchholz quiet_finish_after quiet_generate_after)

section \<open>Knockout: shuffles, rounds and the five-player cup\<close>

lemma formats_differ [simp]:
  "FORMAT_KNOCKOUT \<noteq> FORMAT_SWISS" "FORMAT_KNOCKOUT \<noteq> FORMAT_ROUNDROBIN"
  "FORMAT_SWISS \<noteq> FORMAT_ROUNDROBIN" "FORMAT_SWISS \<noteq> FORMAT_KNOCKOUT"
  by (simp_all add: FORMAT_KNOCKOUT_def FORMAT_SWISS_def FORMAT_ROUNDROBIN_def)

lemma add_games_eq:
  "add_games t prs =
     t\<lparr>t_round_games := t_round_games t @
          [length (t_all_games t)..<length (t_all_games t) + length prs],
       t_all_games := t_all_games t @
          map (\<lambda>wb. new_game (int (t_current_round t)) (fst wb) (snd wb)) prs\<rparr>"
proof (induction prs arbitrary: t)
  case Nil
  then show ?case by (simp add: add_games_def)
next
  case (Cons wb prs)
  have "add_games t (wb # prs) = add_games (add_game t wb) prs"
    by (simp add: add_games_def)
  also have "\<dots> = t\<lparr>t_round_games := t_round_games t @
          [length (t_all_games t)..<length (t_all_games t) + length (wb # prs)],
       t_all_games := t_all_games t @
          map (\<lambda>wb. new_game (int (t_current_round t)) (fst wb) (snd wb)) (wb # prs)\<rparr>"
    unfolding Cons.IH by (simp add: add_game_def upt_conv_Cons del: upt_Suc)
  finally show ?case .
qed

lemma shuffle_loop_mset:
  "i < length xs \<Longrightarrow> mset (shuffle_loop rnd k i xs) = mset xs"
proof (induction rnd k i xs rule: shuffle_loop.induct)
  case (1 rnd k xs)
  then show ?case by simp
next
  case (2 rnd k i xs)
  let ?j = "rnd k mod (Suc i + 1)"
  have j: "?j < length xs" using "2.prems"
    by (metis Suc_eq_plus1 Suc_lessI less_trans_Suc mod_less_divisor not_less_eq zero_less_Suc less_Suc_eq_le le_trans nat_less_le)
  have "mset (xs[Suc i := xs ! ?j, ?j := xs ! Suc i]) = mset xs"
    using mset_swap [OF j "2.prems"] by simp
  moreover have "i < length (xs[Suc i := xs ! ?j, ?j := xs ! Suc i])"
    using "2.prems" by simp
  ultimately show ?case using "2.IH" [of ?j] by (simp add: Let_def)
qed

lemma shuffle_mset: "mset (shuffle rnd xs) = mset xs"
proof (cases xs)
  case Nil
  then show ?thesis by (simp add: shuffle_def)
next
  case (Cons a as)
  then show ?thesis by (simp add: shuffle_def shuffle_loop_mset)
qed

lemma ko_pairs_mset:
  "even (length xs) \<Longrightarrow> mset (paired_players (ko_pairs rnd k xs)) = mset xs"
  by (induction rnd k xs rule: ko_pairs.induct) (auto simp: paired_players_def)

lemma ko_pairs_length: "length (ko_pairs rnd k xs) = length xs div 2"
  by (induction rnd k xs rule: ko_pairs.induct) auto

lemma shuffle_length: "length (shuffle rnd xs) = length xs"
  using shuffle_mset [of rnd xs] by (metis size_mset)

lemma next_round_mset:
  "even (length ws) \<Longrightarrow> mset (paired_players (next_round rnd ws)) = mset ws"
  by (simp add: next_round_def ko_pairs_mset shuffle_length shuffle_mset)

lemma next_round_length: "length (next_round rnd ws) = length ws div 2"
  by (simp add: next_round_def ko_pairs_length shuffle_length)

lemma update_buchholz_other: "t_format t \<noteq> FORMAT_SWISS \<Longrightarrow> update_buchholz t = t"
  by (simp add: update_buchholz_def)

lemma finish_fields:
  "t_finished (finish t)"
  "t_current_round (finish t) = t_current_round t"
  "t_all_games (finish t) = t_all_games t"
  "t_winner t = Some w \<Longrightarrow> t_winner (finish t) = Some w"
  by (simp_all add: finish_def Let_def)

lemma advance_ko_next:
  assumes "t_format t = FORMAT_KNOCKOUT" and "1 < length (t_ko_pending_winners t)"
    and "0 < t_current_round t"
  shows "advance_round rnd t =
     ((store_ko_round (add_games
         (t\<lparr>t_current_round := t_current_round t + 1, t_round_games := [],
            t_ko_pending_winners := []\<rparr>)
         (next_round rnd (t_ko_pending_winners t))), None), False)"
  using assms by (simp add: advance_round_def update_buchholz_other generate_round_def Let_def)

lemma advance_ko_done:
  assumes "t_format t = FORMAT_KNOCKOUT" and "t_ko_pending_winners t = [w]"
  shows "advance_round rnd t = ((finish (t\<lparr>t_winner := Some w\<rparr>), None), True)"
  using assms by (simp add: advance_round_def update_buchholz_other Let_def)

lemma decisive_scores:
  assumes "decisive r"
  shows "\<exists>ws bs. white_score (gm\<lparr>g_result := Some r\<rparr>) = Some ws \<and>
                 black_score (gm\<lparr>g_result := Some r\<rparr>) = Some bs"
proof -
  have "white_score (gm\<lparr>g_result := Some r\<rparr>) \<noteq> None"
    using assms unfolding decisive_def white_score_def by (elim disjE) simp_all
  then obtain ws where ws: "white_score (gm\<lparr>g_result := Some r\<rparr>) = Some ws" by blast
  then show ?thesis by (simp add: black_score_def)
qed

lemma record_ko:
  assumes "t_format t = FORMAT_KNOCKOUT" and "decisive r"
  shows "\<exists>x gm pp h' el.
           (x = g_white (t_all_games t ! g) \<or> x = g_black (t_all_games t ! g)) \<and>
           record_game_result rnd t g r rs mh pgn dur opn evs =
             t\<lparr>t_all_games := (t_all_games t)[g := gm], t_played_pairs := pp, t_pstore := h',
               t_ko_pending_winners := t_ko_pending_winners t @ [x],
               t_ko_eliminated := el\<rparr> \<and>
           g_white gm = g_white (t_all_games t ! g) \<and> g_black gm = g_black (t_all_games t ! g)"
proof -
  define gm where "gm = (t_all_games t ! g)
            \<lparr>g_result := Some r, g_reason := rs, g_pgn := pgn,
             g_move_count := int (length mh), g_duration := dur,
             g_opening := (case opn of None \<Rightarrow> [] | Some s \<Rightarrow> s),
             g_move_history := mh,
             g_eval_history := (case evs of None \<Rightarrow> [] | Some es \<Rightarrow> es),
             g_status := ''done''\<rparr>"
  have "white_score gm = white_score ((t_all_games t ! g)\<lparr>g_result := Some r\<rparr>)"
    "black_score gm = black_score ((t_all_games t ! g)\<lparr>g_result := Some r\<rparr>)"
    by (simp_all add: white_score_def black_score_def gm_def)
  with decisive_scores [OF assms(2)] obtain ws bs where
    sc: "white_score gm = Some ws" "black_score gm = Some bs" by metis
  have w: "g_white gm = g_white (t_all_games t ! g)" "g_black gm = g_black (t_all_games t ! g)"
    by (simp_all add: gm_def)
  define w where "w = g_white (t_all_games t ! g)"
  define b where "b = g_black (t_all_games t ! g)"
  define h where "h = t_pstore t"
  define h2 where "h2 = (h(w := record_player (h w) ws (p_name (h b)) ''w''))
      (b := record_player ((h(w := record_player (h w) ws (p_name (h b)) ''w'')) b) bs
              (p_name ((h(w := record_player (h w) ws (p_name (h b)) ''w'')) w)) ''b'')"
  define x where "x = (if bs < ws then w else if ws < bs then b else [w, b] ! (rnd 0 mod 2))"
  define el where "el = t_ko_eliminated t @
     [if bs < ws then b else if ws < bs then w
      else if [w, b] ! (rnd 0 mod 2) = w then b else w]"
  have xw: "x = w \<or> x = b"
    by (cases "rnd 0 mod 2 = 0") (auto simp: x_def nth_Cons')
  have "record_game_result rnd t g r rs mh pgn dur opn evs =
      t\<lparr>t_all_games := (t_all_games t)[g := gm],
        t_played_pairs := insert {p_name (h w), p_name (h b)} (t_played_pairs t),
        t_pstore := h2,
        t_ko_pending_winners := t_ko_pending_winners t @ [x], t_ko_eliminated := el\<rparr>"
    unfolding record_game_result_def gm_def [symmetric] Let_def w sc
    unfolding w_def [symmetric] b_def [symmetric] h_def [symmetric]
    using assms(1) by (simp add: h2_def x_def el_def)
  then show ?thesis using xw w unfolding w_def b_def by blast
qed

lemma start_ko_five:
  assumes init: "tournament_init h nm FORMAT_KNOCKOUT [p0, p1, p2, p3, p4] rounds dbl = Inr t0"
  shows "start rnd t0 =
     (t0\<lparr>t_started := True, t_current_round := 1, t_round_games := [0],
         t_all_games := [new_game 1 p3 p4],
         t_ko_pending_winners := [p0, p1, p2],
         t_ko_round_games := [(1, [0])],
         t_status_msg := ''Round 1 started''\<rparr>, None)"
proof -
  have bs: "bracket_size 5 1 = 8"
    by (simp add: bracket_size.simps)
  have len: "length [p0, p1, p2, p3, p4] = 5" by simp
  have idx: "[0..<8 div 2] = [0, 1, 2, 3 :: nat]"
    by (simp add: upt_rec)
  have sb: "seed_bracket [p0, p1, p2, p3, p4] =
      [(Some p0, None), (Some p1, None), (Some p2, None), (Some p3, Some p4)]"
    unfolding seed_bracket_def Let_def len bs idx
    by (simp add: numeral_eq_Suc)
  have t0: "t0 = \<lparr>t_name = nm, t_format = FORMAT_KNOCKOUT,
                t_players = foldl (\<lambda>d p. AList.update (p_name (h p)) p d) [] [p0, p1, p2, p3, p4],
                t_player_list = [p0, p1, p2, p3, p4], t_rounds = rounds, t_double_rr = dbl,
                t_current_round = 0, t_all_games = [], t_round_games = [],
                t_played_pairs = {}, t_bye_history = {}, t_started = False,
                t_finished = False, t_winner = None, t_status_msg = ''Ready'',
                t_ko_pending_winners = [], t_ko_eliminated = [], t_ko_round_games = [],
                t_ko_active_players = [p0, p1, p2, p3, p4], t_rr_schedule = None, t_pstore = h\<rparr>"
    using init by (simp add: tournament_init_def Let_def)
  show ?thesis
    unfolding t0
    by (simp add: start_def generate_round_def Let_def sb seed_slot_def add_game_def
        store_ko_round_def py_str_def str_nat.simps digit_char_def)
qed

lemma record_ko_round:
  fixes rnd :: draws and opn :: "string option" and evs :: "int list option"
    and rs pgn :: string and dur :: int and mh :: "(string \<times> string \<times> string) list"
  assumes inv: "ko_inv P t" and dec: "decisive r" and g: "g < length (t_all_games t)"
  defines "u \<equiv> record_game_result rnd t g r rs mh pgn dur opn evs"
  shows "ko_inv P u" and "length (t_ko_pending_winners u) = length (t_ko_pending_winners t) + 1"
    and "t_current_round u = t_current_round t" and "t_finished u = t_finished t"
    and "t_round_games u = t_round_games t"
    and "length (t_all_games u) = length (t_all_games t)"
proof -
  have f: "t_format t = FORMAT_KNOCKOUT" using inv by (simp add: ko_inv_def)
  from record_ko [OF f dec, of g rnd rs mh pgn dur opn evs]
  obtain x gm pp h' el where
    x: "x = g_white (t_all_games t ! g) \<or> x = g_black (t_all_games t ! g)" and
    u: "u = t\<lparr>t_all_games := (t_all_games t)[g := gm], t_played_pairs := pp, t_pstore := h',
               t_ko_pending_winners := t_ko_pending_winners t @ [x],
               t_ko_eliminated := el\<rparr>" and
    gm: "g_white gm = g_white (t_all_games t ! g)" "g_black gm = g_black (t_all_games t ! g)"
    unfolding u_def by blast
  have mem: "t_all_games t ! g \<in> set (t_all_games t)" using g by simp
  then have xP: "x \<in> P" using x inv by (auto simp: ko_inv_def)
  have "\<forall>g'\<in>set ((t_all_games t)[g := gm]). g_white g' \<in> P \<and> g_black g' \<in> P"
    using inv mem gm by (auto simp: ko_inv_def dest!: set_update_subset_insert [THEN subsetD])
  then show "ko_inv P u" using inv xP by (simp add: u ko_inv_def)
  show "length (t_ko_pending_winners u) = length (t_ko_pending_winners t) + 1"
    "t_current_round u = t_current_round t" "t_finished u = t_finished t"
    "t_round_games u = t_round_games t" "length (t_all_games u) = length (t_all_games t)"
    by (simp_all add: u)
qed

lemma ko_pairs_subset: "set (paired_players (ko_pairs rnd k xs)) \<subseteq> set xs"
  by (induction rnd k xs rule: ko_pairs.induct) (auto simp: paired_players_def)

lemma next_round_subset: "set (paired_players (next_round rnd ws)) \<subseteq> set ws"
  using ko_pairs_subset [of rnd "length ws - 1" "shuffle rnd ws"] shuffle_mset [of rnd ws]
  by (metis next_round_def set_mset_mset)

lemma advance_ko_round:
  fixes rnd :: draws
  assumes inv: "ko_inv P t" and many: "1 < length (t_ko_pending_winners t)"
    and cr: "0 < t_current_round t"
  defines "u \<equiv> fst (fst (advance_round rnd t))"
  defines "n \<equiv> length (t_all_games t)"
  defines "k \<equiv> length (t_ko_pending_winners t) div 2"
  shows "ko_inv P u" and "t_ko_pending_winners u = []"
    and "t_current_round u = t_current_round t + 1" and "t_finished u = t_finished t"
    and "t_round_games u = [n..<n + k]" and "length (t_all_games u) = n + k"
proof -
  have f: "t_format t = FORMAT_KNOCKOUT" using inv by (simp add: ko_inv_def)
  let ?prs = "next_round rnd (t_ko_pending_winners t)"
  have u: "u = store_ko_round (add_games
         (t\<lparr>t_current_round := t_current_round t + 1, t_round_games := [],
            t_ko_pending_winners := []\<rparr>) ?prs)"
    unfolding u_def using advance_ko_next [OF f many cr, of rnd] by simp
  have sub: "set (paired_players ?prs) \<subseteq> P"
    using next_round_subset [of rnd "t_ko_pending_winners t"] inv by (auto simp: ko_inv_def)
  have "\<forall>wb\<in>set ?prs. fst wb \<in> P \<and> snd wb \<in> P"
    using sub by (fastforce simp: paired_players_def)
  then show "ko_inv P u"
    using inv by (auto simp: u add_games_eq store_ko_round_def ko_inv_def new_game_def)
  show "t_ko_pending_winners u = []" "t_current_round u = t_current_round t + 1"
    "t_finished u = t_finished t" "t_round_games u = [n..<n + k]"
    "length (t_all_games u) = n + k"
    by (simp_all add: u add_games_eq store_ko_round_def n_def k_def next_round_length)
qed

lemma advance_ko_finish:
  assumes inv: "ko_inv P t" and one: "length (t_ko_pending_winners t) = 1"
  shows "\<exists>w. w \<in> P \<and> t_winner (fst (fst (advance_round rnd t))) = Some w \<and>
             t_finished (fst (fst (advance_round rnd t))) \<and>
             t_current_round (fst (fst (advance_round rnd t))) = t_current_round t \<and>
             t_all_games (fst (fst (advance_round rnd t))) = t_all_games t \<and>
             snd (advance_round rnd t)"
proof -
  from one obtain w where w: "t_ko_pending_winners t = [w]"
    by (auto simp: length_Suc_conv)
  have f: "t_format t = FORMAT_KNOCKOUT" using inv by (simp add: ko_inv_def)
  have "w \<in> P" using inv w by (simp add: ko_inv_def)
  then show ?thesis
    unfolding advance_ko_done [OF f w] by (simp add: finish_fields)
qed

text \<open>
  C6, amended: for a knockout tournament with exactly 5 players, round 1 produces
  exactly three byes (the first three players advance without a game) and one game
  between the fourth and the fifth; when every game is recorded with a decisive result
  (1-0, 0-1 or 1/2-1/2) and the round is advanced once it is complete, round 2 has two
  games, round 3 has one, and the third advance finishes the tournament in round 3
  with exactly one winner, who is one of the five players. This holds for every
  outcome of the random draws.
\<close>

theorem C6_knockout_five:
  assumes five: "length players = 5"
    and init: "tournament_init h nm FORMAT_KNOCKOUT players rounds dbl = Inr t0"
    and dec: "decisive r1" "decisive r2" "decisive r3" "decisive r4"
  shows "\<exists>t1 t2 t3 tf w.
      controller_step t0 (Start d0) = Some t1 \<and>
      t_ko_pending_winners t1 = take 3 players \<and>
      map (\<lambda>g. (g_white g, g_black g)) (t_all_games t1) = [(players ! 3, players ! 4)] \<and>
      t_round_games t1 = [0] \<and> \<not> t_finished t1 \<and> t_current_round t1 = 1 \<and>
      run_ops t1 [Record d1 0 r1 rs1 mh1 pgn1 dur1 opn1 evs1, Advance d2] = Some t2 \<and>
      t_round_games t2 = [1, 2] \<and> \<not> t_finished t2 \<and> t_current_round t2 = 2 \<and>
      run_ops t2 [Record d3 1 r2 rs2 mh2 pgn2 dur2 opn2 evs2,
                  Record d4 2 r3 rs3 mh3 pgn3 dur3 opn3 evs3, Advance d5] = Some t3 \<and>
      t_round_games t3 = [3] \<and> \<not> t_finished t3 \<and> t_current_round t3 = 3 \<and>
      run_ops t3 [Record d6 3 r4 rs4 mh4 pgn4 dur4 opn4 evs4, Advance d7] = Some tf \<and>
      t_finished tf \<and> t_current_round tf = 3 \<and> length (t_all_games tf) = 4 \<and>
      t_winner tf = Some w \<and> w \<in> set players"
proof -
  from five obtain p0 p1 p2 p3 p4 where players: "players = [p0, p1, p2, p3, p4]"
    by (auto simp: length_Suc_conv numeral_eq_Suc)
  define P where "P = set players"
  define t1 where "t1 = fst (start d0 t0)"
  have t1: "t1 = t0\<lparr>t_started := True, t_current_round := 1, t_round_games := [0],
         t_all_games := [new_game 1 p3 p4],
         t_ko_pending_winners := [p0, p1, p2],
         t_ko_round_games := [(1, [0])],
         t_status_msg := ''Round 1 started''\<rparr>"
    unfolding t1_def using start_ko_five [OF init [unfolded players]] by simp
  have f0: "t_format t0 = FORMAT_KNOCKOUT" "\<not> t_finished t0"
    using init by (auto simp: tournament_init_def Let_def)
  have s1: "controller_step t0 (Start d0) = Some t1" by (simp add: t1_def)
  have a1: "t_ko_pending_winners t1 = take 3 players"
    "map (\<lambda>g. (g_white g, g_black g)) (t_all_games t1) = [(players ! 3, players ! 4)]"
    "t_round_games t1 = [0]" "\<not> t_finished t1" "t_current_round t1 = 1"
    "length (t_all_games t1) = 1" "length (t_ko_pending_winners t1) = 3"
    using f0 by (simp_all add: t1 players new_game_def)
  have i1: "ko_inv P t1"
    using f0 by (simp add: ko_inv_def t1 P_def players new_game_def)
  \<comment> \<open>round 1: one game, then the advance\<close>
  define u1 where "u1 = record_game_result d1 t1 0 r1 rs1 mh1 pgn1 dur1 opn1 evs1"
  have g1: "0 < length (t_all_games t1)" using a1 by simp
  note R1 = record_ko_round [OF i1 dec(1) g1, of d1 rs1 mh1 pgn1 dur1 opn1 evs1,
      folded u1_def, unfolded a1(3-7)]
  define t2 where "t2 = fst (fst (advance_round d2 u1))"
  have m1: "1 < length (t_ko_pending_winners u1)" "0 < t_current_round u1"
    using R1 by simp_all
  note A1 = advance_ko_round [OF R1(1) m1, of d2, folded t2_def, unfolded R1]
  have a2: "t_round_games t2 = [1, 2]" "\<not> t_finished t2" "t_current_round t2 = 2"
    "length (t_all_games t2) = 3" "t_ko_pending_winners t2 = []"
    using A1 a1 by (simp_all add: upt_rec)
  have s2: "run_ops t1 [Record d1 0 r1 rs1 mh1 pgn1 dur1 opn1 evs1, Advance d2] = Some t2"
    using a1 by (simp add: t2_def u1_def)
  \<comment> \<open>round 2: two games\<close>
  define u2 where "u2 = record_game_result d3 t2 1 r2 rs2 mh2 pgn2 dur2 opn2 evs2"
  have g2: "1 < length (t_all_games t2)" using a2 by simp
  note R2 = record_ko_round [OF A1(1) dec(2) g2, of d3 rs2 mh2 pgn2 dur2 opn2 evs2,
      folded u2_def, unfolded a2]
  define u3 where "u3 = record_game_result d4 u2 2 r3 rs3 mh3 pgn3 dur3 opn3 evs3"
  have g3: "2 < length (t_all_games u2)" using R2 by simp
  note R3 = record_ko_round [OF R2(1) dec(3) g3, of d4 rs3 mh3 pgn3 dur3 opn3 evs3,
      folded u3_def, unfolded R2]
  define t3 where "t3 = fst (fst (advance_round d5 u3))"
  have m3: "1 < length (t_ko_pending_winners u3)" "0 < t_current_round u3"
    using R3 by simp_all
  note A3 = advance_ko_round [OF R3(1) m3, of d5, folded t3_def, unfolded R3]
  have a3: "t_round_games t3 = [3]" "\<not> t_finished t3" "t_current_round t3 = 3"
    "length (t_all_games t3) = 4" "t_ko_pending_winners t3 = []"
    using A3 a2 by (simp_all add: upt_rec)
  have s3: "run_ops t2 [Record d3 1 r2 rs2 mh2 pgn2 dur2 opn2 evs2,
                  Record d4 2 r3 rs3 mh3 pgn3 dur3 opn3 evs3, Advance d5] = Some t3"
    using a2 R2 by (simp add: t3_def u3_def u2_def)
  \<comment> \<open>round 3: the final\<close>
  define u4 where "u4 = record_game_result d6 t3 3 r4 rs4 mh4 pgn4 dur4 opn4 evs4"
  have g4: "3 < length (t_all_games t3)" using a3 by simp
  note R4 = record_ko_round [OF A3(1) dec(4) g4, of d6 rs4 mh4 pgn4 dur4 opn4 evs4,
      folded u4_def, unfolded a3]
  define tf where "tf = fst (fst (advance_round d7 u4))"
  have one: "length (t_ko_pending_winners u4) = 1" using R4 by simp
  from advance_ko_finish [OF R4(1) one, of d7, folded tf_def]
  obtain w where w: "w \<in> P" "t_winner tf = Some w" "t_finished tf"
    "t_current_round tf = t_current_round u4" "t_all_games tf = t_all_games u4" by blast
  have s4: "run_ops t3 [Record d6 3 r4 rs4 mh4 pgn4 dur4 opn4 evs4, Advance d7] = Some tf"
    using a3 by (simp add: tf_def u4_def)
  have fin: "t_finished tf" "t_current_round tf = 3" "length (t_all_games tf) = 4"
    "t_winner tf = Some w" "w \<in> set players"
    using w R4 a3 by (simp_all add: P_def)
  show ?thesis
    by (rule exI [of _ t1], rule exI [of _ t2], rule exI [of _ t3], rule exI [of _ tf],
        rule exI [of _ w])
      (intro conjI s1 a1(1-5) s2 a2(1-3) s3 a3(1-3) s4 fin)
qed

section \<open>Controller: what recording a result changes\<close>

lemma record_shape:
  "\<exists>gm pp h' pw el.
     record_game_result rnd t g r rs mh pgn dur opn evs =
       t\<lparr>t_all_games := (t_all_games t)[g := gm],
         t_played_pairs := insert pp (t_played_pairs t), t_pstore := h',
         t_ko_pending_winners := pw, t_ko_eliminated := el\<rparr>"
proof -
  define gm where "gm = (t_all_games t ! g)
            \<lparr>g_result := Some r, g_reason := rs, g_pgn := pgn,
             g_move_count := int (length mh), g_duration := dur,
             g_opening := (case opn of None \<Rightarrow> [] | Some s \<Rightarrow> s),
             g_move_history := mh,
             g_eval_history := (case evs of None \<Rightarrow> [] | Some es \<Rightarrow> es),
             g_status := ''done''\<rparr>"
  define pp where "pp = {p_name (t_pstore t (g_white gm)), p_name (t_pstore t (g_black gm))}"
  show ?thesis
  proof (cases "white_score gm")
    case None
    have "record_game_result rnd t g r rs mh pgn dur opn evs =
        t\<lparr>t_all_games := (t_all_games t)[g := gm],
          t_played_pairs := insert pp (t_played_pairs t)\<rparr>"
      unfolding record_game_result_def gm_def [symmetric] Let_def pp_def
      by (simp add: None)
    also have "\<dots> = t\<lparr>t_all_games := (t_all_games t)[g := gm],
          t_played_pairs := insert pp (t_played_pairs t), t_pstore := t_pstore t,
          t_ko_pending_winners := t_ko_pending_winners t,
          t_ko_eliminated := t_ko_eliminated t\<rparr>"
      by simp
    finally show ?thesis by blast
  next
    case sc: (Some ws)
    then obtain bs where bs: "black_score gm = Some bs" by (simp add: black_score_def)
    show ?thesis
    proof (cases "t_format t = FORMAT_KNOCKOUT")
      case True
      have "decisive r"
        using sc by (simp add: white_score_def gm_def decisive_def split: if_splits)
      from record_ko [OF True this, of g rnd rs mh pgn dur opn evs]
      obtain x gm' pp' h' el where
        "record_game_result rnd t g r rs mh pgn dur opn evs =
             t\<lparr>t_all_games := (t_all_games t)[g := gm'], t_played_pairs := pp', t_pstore := h',
               t_ko_pending_winners := t_ko_pending_winners t @ [x],
               t_ko_eliminated := el\<rparr>" by blast
      moreover have "t_played_pairs (record_game_result rnd t g r rs mh pgn dur opn evs)
          = insert pp (t_played_pairs t)"
        unfolding record_game_result_def gm_def [symmetric] Let_def pp_def sc bs
        by (simp only: prod.case option.case) simp
      ultimately have "record_game_result rnd t g r rs mh pgn dur opn evs =
             t\<lparr>t_all_games := (t_all_games t)[g := gm'],
               t_played_pairs := insert pp (t_played_pairs t), t_pstore := h',
               t_ko_pending_winners := t_ko_pending_winners t @ [x],
               t_ko_eliminated := el\<rparr>" by simp
      then show ?thesis by blast
    next
      case False
      define h where "h = t_pstore t"
      define w where "w = g_white gm"
      define b where "b = g_black gm"
      define h2 where "h2 = (h(w := record_player (h w) ws (p_name (h b)) ''w''))
        (b := record_player ((h(w := record_player (h w) ws (p_name (h b)) ''w'')) b) bs
              (p_name ((h(w := record_player (h w) ws (p_name (h b)) ''w'')) w)) ''b'')"
      have "record_game_result rnd t g r rs mh pgn dur opn evs =
          t\<lparr>t_all_games := (t_all_games t)[g := gm],
            t_played_pairs := insert pp (t_played_pairs t), t_pstore := h2\<rparr>"
        unfolding record_game_result_def gm_def [symmetric] Let_def pp_def sc bs
        unfolding w_def [symmetric] b_def [symmetric] h_def [symmetric]
        using False by (simp add: h2_def)
      also have "\<dots> = t\<lparr>t_all_games := (t_all_games t)[g := gm],
          t_played_pairs := insert pp (t_played_pairs t), t_pstore := h2,
          t_ko_pending_winners := t_ko_pending_winners t,
          t_ko_eliminated := t_ko_eliminated t\<rparr>"
        by simp
      finally show ?thesis by blast
    qed
  qed
qed

lemma record_facts:
  "t_finished (record_game_result rnd t g r rs mh pgn dur opn evs) = t_finished t"
  "t_played_pairs t \<subseteq> t_played_pairs (record_game_result rnd t g r rs mh pgn dur opn evs)"
  "length (t_all_games (record_game_result rnd t g r rs mh pgn dur opn evs)) = length (t_all_games t)"
  "g' \<noteq> g \<Longrightarrow> t_all_games (record_game_result rnd t g r rs mh pgn dur opn evs) ! g'
      = t_all_games t ! g'"
proof -
  from record_shape [of rnd t g r rs mh pgn dur opn evs]
  obtain gm pp h' pw el where
    u: "record_game_result rnd t g r rs mh pgn dur opn evs =
       t\<lparr>t_all_games := (t_all_games t)[g := gm],
         t_played_pairs := insert pp (t_played_pairs t), t_pstore := h',
         t_ko_pending_winners := pw, t_ko_eliminated := el\<rparr>" by blast
  show "t_finished (record_game_result rnd t g r rs mh pgn dur opn evs) = t_finished t"
    "t_played_pairs t \<subseteq> t_played_pairs (record_game_result rnd t g r rs mh pgn dur opn evs)"
    "length (t_all_games (record_game_result rnd t g r rs mh pgn dur opn evs)) = length (t_all_games t)"
    "g' \<noteq> g \<Longrightarrow> t_all_games (record_game_result rnd t g r rs mh pgn dur opn evs) ! g'
      = t_all_games t ! g'"
    unfolding u by (simp_all add: subset_insertI)
qed

lemma step_mono:
  assumes "controller_step t x = Some t'"
  shows "(t_finished t \<longrightarrow> t_finished t') \<and> t_played_pairs t \<subseteq> t_played_pairs t' \<and>
         length (t_all_games t) \<le> length (t_all_games t') \<and>
         (\<forall>g < length (t_all_games t). \<not> records_game g x \<longrightarrow>
              t_all_games t' ! g = t_all_games t ! g)"
proof (cases x)
  case (Start rnd)
  then have "quiet t t'" using assms quiet_start by auto
  then show ?thesis
    by (auto simp: quiet_def prefix_def nth_append)
next
  case (Advance rnd)
  then have "quiet t t'" using assms quiet_advance by auto
  then show ?thesis
    by (auto simp: quiet_def prefix_def nth_append)
next
  case (Record rnd g r rs mh pgn dur opn evs)
  then have t': "t' = record_game_result rnd t g r rs mh pgn dur opn evs"
    using assms by (auto split: if_splits)
  show ?thesis
    unfolding t' using Record by (auto simp: record_facts)
qed

lemma run_mono:
  "run_ops t ops = Some t' \<Longrightarrow>
     (t_finished t \<longrightarrow> t_finished t') \<and> t_played_pairs t \<subseteq> t_played_pairs t' \<and>
     length (t_all_games t) \<le> length (t_all_games t') \<and>
     (\<forall>g < length (t_all_games t). (\<forall>x\<in>set ops. \<not> records_game g x) \<longrightarrow>
          t_all_games t' ! g = t_all_games t ! g)"
proof (induction ops arbitrary: t)
  case Nil
  then show ?case by simp
next
  case (Cons x xs)
  then obtain t1 where s: "controller_step t x = Some t1" and r: "run_ops t1 xs = Some t'"
    by (auto split: option.splits)
  note a = step_mono [OF s] and b = Cons.IH [OF r]
  show ?case
  proof (intro conjI allI impI)
    show "t_finished t \<Longrightarrow> t_finished t'" using a b by blast
    show "t_played_pairs t \<subseteq> t_played_pairs t'" using a b by blast
    show "length (t_all_games t) \<le> length (t_all_games t')" using a b by linarith
    fix g assume g: "g < length (t_all_games t)" and n: "\<forall>x\<in>set (x # xs). \<not> records_game g x"
    have "t_all_games t1 ! g = t_all_games t ! g" using a g n by simp
    moreover have "t_all_games t' ! g = t_all_games t1 ! g" using a b g n by simp
    ultimately show "t_all_games t' ! g = t_all_games t ! g" by simp
  qed
qed

section \<open>Controller: the claims\<close>

lemmas ctl_defs = play_def tournament_init_def start_def generate_round_def Let_def
  pair_def swiss_key_def new_player_def new_game_def backtrack_pair.simps try_from.simps
  assign_colors_def color_balance_def coin_def insort_key.simps less_eq_prod_def less_prod_def
  add_games_def add_game_def record_game_result_def white_score_def black_score_def
  record_player_def FORMAT_SWISS_def FORMAT_KNOCKOUT_def FORMAT_ROUNDROBIN_def
  py_str_def str_nat.simps digit_char_def no_draws_def

lemma cup5_made: "cup5 = Inr (projr cup5)"
  by (simp add: cup5_def tournament_init_def Let_def)

text \<open>
  C6, as stated, fails in its first part: the bracket of five players is seeded into
  eight slots, so three slots are empty and three players advance without a game in
  round 1, not one; round 1 has a single game.
\<close>

theorem C6_three_byes_counterexample:
  "map_option (\<lambda>t. (length (t_ko_pending_winners t), length (t_round_games t)))
     (play cup5 [Start no_draws]) = Some (3, 1)"
proof -
  have "tournament_init roster5 ''Cup'' FORMAT_KNOCKOUT [0, 1, 2, 3, 4] 3 False = Inr (projr cup5)"
    using cup5_made by (simp add: cup5_def)
  from start_ko_five [OF this, of no_draws]
  have "play cup5 [Start no_draws] =
      Some ((projr cup5)\<lparr>t_started := True, t_current_round := 1, t_round_games := [0],
         t_all_games := [new_game 1 3 4], t_ko_pending_winners := [0, 1, 2],
         t_ko_round_games := [(1, [0])], t_status_msg := ''Round 1 started''\<rparr>)"
    by (subst cup5_made) (simp add: play_def)
  then show ?thesis by simp
qed

text \<open>
  C8, as stated, fails in its first part: \<^verbatim>\<open>record_game_result\<close> assigns
  \<^verbatim>\<open>game.result\<close> without looking at it, so a second call for the same game replaces a
  result already set. Here the duel's only game is recorded as 1-0 and then as 0-1.
\<close>

theorem C8_result_overwritten_counterexample:
  "map_option (\<lambda>t. g_result (t_all_games t ! 0)) (play duel duel_ops) = Some (Some ''1-0'') \<and>
   map_option (\<lambda>t. g_result (t_all_games t ! 0))
     (play duel (duel_ops @ [Record no_draws 0 ''0-1'' ''Resigned'' [] [] 7 None None]))
     = Some (Some ''0-1'')"
  by (simp add: duel_def duel_ops_def roster4_def ctl_defs)

text \<open>
  C8, amended: under every sequence of controller operations (start, record result,
  advance round), the finished flag, once true, stays true; the set of played pairs
  never loses an element; and the result of a game of the tournament is kept by every
  sequence that contains no \<^verbatim>\<open>record_game_result\<close> call for that game. Only a further
  record call for the same game changes a result.
\<close>

theorem C8_controller_monotone:
  assumes "run_ops t ops = Some t'"
  shows "(t_finished t \<longrightarrow> t_finished t') \<and>
         t_played_pairs t \<subseteq> t_played_pairs t' \<and>
         (\<forall>g < length (t_all_games t). (\<forall>x\<in>set ops. \<not> records_game g x) \<longrightarrow>
            g < length (t_all_games t') \<and>
            g_result (t_all_games t' ! g) = g_result (t_all_games t ! g))"
  using run_mono [OF assms] by auto

lemma duel_done_fields:
  "t_finished duel_done" "g_result (t_all_games duel_done ! 0) = Some ''1-0''"
  "length (t_all_games duel_done) = 1" "{''A'', ''B''} \<in> t_played_pairs duel_done"
  by (simp_all add: duel_done_def duel_def duel_ops_def roster4_def ctl_defs advance_round_def
      update_buchholz_def finish_def get_standings_def score_map_get_def sonneborn_of_def)

text \<open>
  The amended claim at the finished duel, advanced and started once more: it is still
  finished, the game is still 1-0 and the pair A-B is still in the played pairs.
\<close>

theorem C8_controller_monotone_witness:
  "t_finished duel_done \<and>
   map_option t_finished (run_ops duel_done after_end) = Some True \<and>
   map_option (\<lambda>t. g_result (t_all_games t ! 0)) (run_ops duel_done after_end)
     = Some (Some ''1-0'') \<and>
   map_option (\<lambda>t. {''A'', ''B''} \<in> t_played_pairs t) (run_ops duel_done after_end) = Some True"
proof -
  obtain t' where run: "run_ops duel_done after_end = Some t'"
    by (simp add: after_end_def)
  have none: "\<forall>x\<in>set after_end. \<not> records_game 0 x"
    by (simp add: after_end_def)
  from C8_controller_monotone [OF run] duel_done_fields none
  have "t_finished t'" "g_result (t_all_games t' ! 0) = Some ''1-0''"
    "{''A'', ''B''} \<in> t_played_pairs t'"
    by auto
  then show ?thesis using run duel_done_fields(1) by simp
qed

text \<open>The amended claim at the cup of A to E, with all draws 0.\<close>

theorem C6_knockout_five_witness:
  "length [0, 1, 2, 3, 4 :: pref] = 5 \<and> cup5 = Inr (projr cup5) \<and>
   decisive ''1-0'' \<and> decisive ''0-1'' \<and> decisive ''1/2-1/2'' \<and>
   (\<exists>t1 t2 t3 tf w.
      controller_step (projr cup5) (Start no_draws) = Some t1 \<and>
      t_ko_pending_winners t1 = take 3 [0, 1, 2, 3, 4] \<and>
      map (\<lambda>g. (g_white g, g_black g)) (t_all_games t1)
        = [([0, 1, 2, 3, 4] ! 3, [0, 1, 2, 3, 4] ! 4)] \<and>
      t_round_games t1 = [0] \<and> \<not> t_finished t1 \<and> t_current_round t1 = 1 \<and>
      run_ops t1 [Record no_draws 0 ''1-0'' [] [] [] 0 None None, Advance no_draws] = Some t2 \<and>
      t_round_games t2 = [1, 2] \<and> \<not> t_finished t2 \<and> t_current_round t2 = 2 \<and>
      run_ops t2 [Record no_draws 1 ''0-1'' [] [] [] 0 None None,
                  Record no_draws 2 ''1/2-1/2'' [] [] [] 0 None None, Advance no_draws] = Some t3 \<and>
      t_round_games t3 = [3] \<and> \<not> t_finished t3 \<and> t_current_round t3 = 3 \<and>
      run_ops t3 [Record no_draws 3 ''1-0'' [] [] [] 0 None None, Advance no_draws] = Some tf \<and>
      t_finished tf \<and> t_current_round tf = 3 \<and> length (t_all_games tf) = 4 \<and>
      t_winner tf = Some w \<and> w \<in> set [0, 1, 2, 3, 4])"
proof -
  have five: "length [0, 1, 2, 3, 4 :: pref] = 5" by simp
  have made: "tournament_init roster5 ''Cup'' FORMAT_KNOCKOUT [0, 1, 2, 3, 4] 3 False
      = Inr (projr cup5)"
    using cup5_made by (simp add: cup5_def)
  have dec: "decisive ''1-0''" "decisive ''0-1''" "decisive ''1/2-1/2''"
    by (simp_all add: decisive_def)
  note run = C6_knockout_five [OF five made dec(1) dec(2) dec(3) dec(1),
      of no_draws no_draws "[]" "[]" "[]" 0 None None no_draws no_draws "[]" "[]" "[]" 0 None None
         no_draws "[]" "[]" "[]" 0 None None no_draws no_draws "[]" "[]" "[]" 0 None None no_draws]
  show ?thesis
    by (intro conjI five cup5_made dec run)
qed

end
